theory Spec2Isabelle
  imports Main
begin

section \<open>Strings\<close>

text \<open>
  Strings are lists of 8-bit characters. The model covers ASCII text: \<open>toLowerCase\<close>
  folds the letters A to Z, and \<open>trim\<close> strips tab, line feed, vertical tab, form
  feed, carriage return and space from both ends. (JavaScript also folds and strips
  characters outside ASCII; those are outside this model.)
\<close>

definition lower_char :: "char \<Rightarrow> char" where
  "lower_char c =
     (let n = (of_char c :: nat) in if 65 \<le> n \<and> n \<le> 90 then char_of (n + 32) else c)"

definition toLowerCase :: "string \<Rightarrow> string" where
  "toLowerCase s = map lower_char s"

definition is_space :: "char \<Rightarrow> bool" where
  "is_space c = (let n = (of_char c :: nat) in (9 \<le> n \<and> n \<le> 13) \<or> n = 32)"

definition trim :: "string \<Rightarrow> string" where
  "trim s = rev (dropWhile is_space (rev (dropWhile is_space s)))"

fun startsWith :: "string \<Rightarrow> string \<Rightarrow> bool" where
  "startsWith s [] = True"
| "startsWith [] (q # qs) = False"
| "startsWith (c # s) (q # qs) = (c = q \<and> startsWith s qs)"

text \<open>\<open>str_includes s q\<close> is \<open>s.includes(q)\<close>: \<open>q\<close> occurs in \<open>s\<close> as a contiguous run.\<close>

fun str_includes :: "string \<Rightarrow> string \<Rightarrow> bool" where
  "str_includes [] q = (q = [])"
| "str_includes (c # s) q = (startsWith (c # s) q \<or> str_includes s q)"

text \<open>\<open>lines.join("\n")\<close>\<close>

fun join_lines :: "string list \<Rightarrow> string" where
  "join_lines [] = []"
| "join_lines [l] = l"
| "join_lines (l # m # ls) = l @ [CHR 0x0A] @ join_lines (m # ls)"

text \<open>
  \<open>path.join(dir, name)\<close> for segments that are already normalised: the two segments
  with a separator between them.
\<close>

definition path_join :: "string \<Rightarrow> string \<Rightarrow> string" where
  "path_join dir name = dir @ ''/'' @ name"

section \<open>Data model (types/index.ts)\<close>

datatype class_type = Class | Interface | Enum

fun type_string :: "class_type \<Rightarrow> string" where
  "type_string Class = ''class''"
| "type_string Interface = ''interface''"
| "type_string Enum = ''enum''"

record ClassInfo =
  full_name :: string
  path :: string
  type :: class_type
  package :: string

text \<open>
  \<open>ClassLookup\<close>: the parsed index object, as the list of its own entries in the
  order \<open>Object.entries\<close> iterates them.
\<close>

type_synonym ClassLookup = "(string \<times> ClassInfo) list"

record ServerConfig =
  docsDir :: string
  lookupFile :: string
  docsUrl :: "string option"
  docsDownloadTimeout :: nat

section \<open>The world outside the process\<close>

datatype node = File string | Dir

datatype errno = ENOENT | EISDIR | EEXIST | EACCES

text \<open>
  The values the code throws. An error of the file system carries the path when the
  failing call is the opening or creating of the path (\<open>FsError\<close>), and none when
  it is the read of an opened directory (\<open>FsReadError\<close>).
\<close>

datatype error =
    FsError errno string
  | FsReadError errno
  | FetchFailed
  | HttpStatus nat
  | DownloadTimeout nat
  | InvalidZip
  | ExtractZipFailed error
  | MissingClassLookup
  | LookupIndexNotFound
  | EmptyQuery
  | EmptyClassName
  | ClassNotFound string
  | InvalidArgType

datatype fetch_outcome = FetchThrows | FetchAborted | FetchResponse nat string

text \<open>
  The file system maps a path to a file with its contents or to a directory;
  \<open>net_calls\<close> counts the requests sent.
\<close>

record world =
  fs :: "string \<rightharpoonup> node"
  net_calls :: nat

text \<open>
  The collaborators the code calls but does not define: the remote end of \<open>fetch\<close>,
  the archive reader (\<open>new AdmZip(buffer)\<close>: the file entries as name and contents, or
  \<open>None\<close> when the constructor throws), the place the archive library gives an entry
  under a target directory (\<open>entry_place e target name\<close>, the library's own
  normalisation of the name, of which nothing is assumed), \<open>JSON.parse\<close> on the index
  file (\<open>None\<close> when it throws; a text that parses to something other than an object
  of entries is outside the model), and the paths at which a write is refused.
\<close>

record env =
  http_get :: "string \<Rightarrow> nat \<Rightarrow> fetch_outcome"
  zip_entries :: "string \<Rightarrow> (string \<times> string) list option"
  entry_place :: "string \<Rightarrow> string \<Rightarrow> string"
  json_parse :: "string \<Rightarrow> ClassLookup option"
  write_fails :: "string \<Rightarrow> bool"

definition access :: "(string \<rightharpoonup> node) \<Rightarrow> string \<Rightarrow> bool" where
  "access f p = (f p \<noteq> None)"

definition readFile :: "(string \<rightharpoonup> node) \<Rightarrow> string \<Rightarrow> error + string" where
  "readFile f p =
     (case f p of
        None \<Rightarrow> Inl (FsError ENOENT p)
      | Some Dir \<Rightarrow> Inl (FsReadError EISDIR)
      | Some (File c) \<Rightarrow> Inr c)"

definition writeFile ::
  "env \<Rightarrow> (string \<rightharpoonup> node) \<Rightarrow> string \<Rightarrow> string \<Rightarrow> error + (string \<rightharpoonup> node)" where
  "writeFile e f p c =
     (if f p = Some Dir then Inl (FsError EISDIR p)
      else if write_fails e p then Inl (FsError EACCES p)
      else Inr (f(p \<mapsto> File c)))"

text \<open>\<open>fs.mkdir(p, { recursive: true })\<close>\<close>

definition mkdir :: "env \<Rightarrow> (string \<rightharpoonup> node) \<Rightarrow> string \<Rightarrow> error + (string \<rightharpoonup> node)" where
  "mkdir e f p =
     (case f p of
        Some Dir \<Rightarrow> Inr f
      | Some (File c) \<Rightarrow> Inl (FsError EEXIST p)
      | None \<Rightarrow> if write_fails e p then Inl (FsError EACCES p) else Inr (f(p \<mapsto> Dir)))"

section \<open>Lookup cache (utils/lookup.ts)\<close>

text \<open>
  The module variable \<open>lookupCache\<close> is passed in and returned: the result of
  \<open>loadLookup\<close> is the value it resolves to, paired with the cache afterwards.
  Only a successful parse assigns the cache; the \<open>catch\<close> branch returns \<open>null\<close> and
  leaves it as it was.
\<close>

definition loadLookup ::
  "env \<Rightarrow> (string \<rightharpoonup> node) \<Rightarrow> string \<Rightarrow> ClassLookup option
     \<Rightarrow> ClassLookup option \<times> ClassLookup option" where
  "loadLookup e f lookup_file lookupCache =
     (case lookupCache of
        Some cached \<Rightarrow> (Some cached, lookupCache)
      | None \<Rightarrow>
          (case readFile f lookup_file of
             Inl err \<Rightarrow> (None, None)
           | Inr data \<Rightarrow>
               (case json_parse e data of
                  None \<Rightarrow> (None, None)
                | Some parsed \<Rightarrow> (Some parsed, Some parsed))))"

section \<open>Tool handlers (tools/handlers.ts)\<close>

text \<open>
  The calls to the logger and to the metrics counters change no result and are left
  out, here and in the download module.
\<close>

definition MAX_SEARCH_RESULTS :: nat where
  "MAX_SEARCH_RESULTS = 25"

definition match_line :: "ClassInfo \<Rightarrow> string" where
  "match_line info = ''- '' @ full_name info @ '' ('' @ type_string (type info) @ '')''"

text \<open>
  The \<open>for\<close> loop of \<open>searchHytaleClasses\<close> over \<open>Object.entries(lookup)\<close>, with
  its two accumulators and its \<open>break\<close>.
\<close>

fun search_loop :: "ClassLookup \<Rightarrow> string \<Rightarrow> string list \<Rightarrow> string set \<Rightarrow> string list" where
  "search_loop [] query matches seenPaths = matches"
| "search_loop ((className, info) # rest) query matches seenPaths =
     (if str_includes (toLowerCase className) query \<and> path info \<notin> seenPaths then
        (let seenPaths' = insert (path info) seenPaths;
             matches' = matches @ [match_line info]
         in if length matches' \<ge> MAX_SEARCH_RESULTS then matches'
            else search_loop rest query matches' seenPaths')
      else search_loop rest query matches seenPaths)"

definition searchHytaleClasses ::
  "env \<Rightarrow> (string \<rightharpoonup> node) \<Rightarrow> string \<Rightarrow> string \<Rightarrow> ClassLookup option
     \<Rightarrow> (error + string) \<times> ClassLookup option" where
  "searchHytaleClasses e f query_arg lookup_file lookupCache =
     (case loadLookup e f lookup_file lookupCache of
        (None, cache) \<Rightarrow> (Inl LookupIndexNotFound, cache)
      | (Some lookup, cache) \<Rightarrow>
          (let query = trim (toLowerCase query_arg) in
           if query = [] then (Inl EmptyQuery, cache)
           else
             (let matches = search_loop lookup query [] {} in
              (Inr (if length matches > 0 then join_lines matches
                    else ''No matches found for your search query.''), cache))))"

text \<open>
  \<open>lookup[className]\<close> is a JavaScript property read. The object \<open>JSON.parse\<close> built
  inherits from \<open>Object.prototype\<close>, so the read finds an own entry, or else a member
  of the prototype (a function or the prototype object, all truthy and without a
  \<open>path\<close> field), or else \<open>undefined\<close>.
\<close>

definition object_prototype_keys :: "string list" where
  "object_prototype_keys =
     [''constructor'', ''__defineGetter__'', ''__defineSetter__'', ''hasOwnProperty'',
      ''__lookupGetter__'', ''__lookupSetter__'', ''isPrototypeOf'',
      ''propertyIsEnumerable'', ''toString'', ''valueOf'', ''__proto__'',
      ''toLocaleString'']"

datatype property = Own ClassInfo | Inherited | Undefined

definition get_property :: "ClassLookup \<Rightarrow> string \<Rightarrow> property" where
  "get_property lookup k =
     (case map_of lookup k of
        Some info \<Rightarrow> Own info
      | None \<Rightarrow> if k \<in> set object_prototype_keys then Inherited else Undefined)"

text \<open>The case-insensitive \<open>for\<close> loop of \<open>readHytaleClassDocs\<close>, with its \<open>break\<close>.\<close>

fun scan_keys :: "ClassLookup \<Rightarrow> string \<Rightarrow> property" where
  "scan_keys [] lowerClassName = Undefined"
| "scan_keys ((key, val) # rest) lowerClassName =
     (if toLowerCase key = lowerClassName then Own val else scan_keys rest lowerClassName)"

text \<open>
  The resolution of \<open>readHytaleClassDocs\<close>: \<open>classInfo = lookup[className]\<close>, and
  the scan only \<open>if (!classInfo)\<close>.
\<close>

definition find_class_info :: "ClassLookup \<Rightarrow> string \<Rightarrow> property" where
  "find_class_info lookup className =
     (let classInfo = get_property lookup className
      in if classInfo = Undefined then scan_keys lookup (toLowerCase className) else classInfo)"

text \<open>
  An inherited member has no \<open>path\<close>, and \<open>path.join(docsDir, undefined)\<close> throws a
  \<open>TypeError\<close> (\<open>InvalidArgType\<close>). An error of \<open>fs.readFile\<close> is passed on as it is.
\<close>

definition readHytaleClassDocs ::
  "env \<Rightarrow> (string \<rightharpoonup> node) \<Rightarrow> string \<Rightarrow> string \<Rightarrow> string \<Rightarrow> ClassLookup option
     \<Rightarrow> (error + string) \<times> ClassLookup option" where
  "readHytaleClassDocs e f full_class_name lookup_file docs lookupCache =
     (case loadLookup e f lookup_file lookupCache of
        (None, cache) \<Rightarrow> (Inl LookupIndexNotFound, cache)
      | (Some lookup, cache) \<Rightarrow>
          (let className = trim full_class_name in
           if className = [] then (Inl EmptyClassName, cache)
           else
             (case find_class_info lookup className of
                Undefined \<Rightarrow> (Inl (ClassNotFound className), cache)
              | Inherited \<Rightarrow> (Inl InvalidArgType, cache)
              | Own info \<Rightarrow> (readFile f (path_join docs (path info)), cache))))"

section \<open>Download and extraction (utils/downloader.ts)\<close>

definition LAST_URL_FILE :: string where
  "LAST_URL_FILE = ''.last-download-url''"

definition hasUrlChanged :: "(string \<rightharpoonup> node) \<Rightarrow> string \<Rightarrow> string \<Rightarrow> bool" where
  "hasUrlChanged f dir currentUrl =
     (case readFile f (path_join dir LAST_URL_FILE) of
        Inr lastUrl \<Rightarrow> trim lastUrl \<noteq> trim currentUrl
      | Inl err \<Rightarrow> True)"

text \<open>\<open>saveLastUrl\<close> catches the error of the write and only logs it.\<close>

definition saveLastUrl :: "env \<Rightarrow> (string \<rightharpoonup> node) \<Rightarrow> string \<Rightarrow> string \<Rightarrow> (string \<rightharpoonup> node)" where
  "saveLastUrl e f dir url =
     (case writeFile e f (path_join dir LAST_URL_FILE) url of
        Inr f' \<Rightarrow> f'
      | Inl err \<Rightarrow> f)"

definition response_ok :: "nat \<Rightarrow> bool" where
  "response_ok status = (200 \<le> status \<and> status \<le> 299)"

definition downloadFile :: "env \<Rightarrow> string \<Rightarrow> nat \<Rightarrow> world \<Rightarrow> (error + string) \<times> world" where
  "downloadFile e url timeout w =
     ((case http_get e url timeout of
         FetchThrows \<Rightarrow> Inl FetchFailed
       | FetchAborted \<Rightarrow> Inl (DownloadTimeout timeout)
       | FetchResponse status body \<Rightarrow>
           if \<not> response_ok status then Inl (HttpStatus status) else Inr body),
      w\<lparr>net_calls := net_calls w + 1\<rparr>)"

text \<open>
  \<open>zip.extractAllTo(destDir, true)\<close> of the archive library, which is not part of
  the repository: the file entries are taken one after the other, each at its place
  under the target. An entry whose place is a directory is passed over without an
  error and the later entries are still written; otherwise the entry is written over
  whatever is there. A write that is refused throws, and what was written before it
  stays.
\<close>

fun extractAllTo ::
  "env \<Rightarrow> string \<Rightarrow> (string \<times> string) list \<Rightarrow> (string \<rightharpoonup> node)
     \<Rightarrow> (error + unit) \<times> (string \<rightharpoonup> node)" where
  "extractAllTo e targetPath [] f = (Inr (), f)"
| "extractAllTo e targetPath ((entryName, content) # rest) f =
     (let place = entry_place e targetPath entryName
      in if f place = Some Dir then extractAllTo e targetPath rest f
         else if write_fails e place then (Inl (FsError EACCES place), f)
         else extractAllTo e targetPath rest (f(place \<mapsto> File content)))"

definition extractZip ::
  "env \<Rightarrow> string \<Rightarrow> string \<Rightarrow> (string \<rightharpoonup> node) \<Rightarrow> (error + unit) \<times> (string \<rightharpoonup> node)" where
  "extractZip e buffer destDir f =
     (case mkdir e f destDir of
        Inl err \<Rightarrow> (Inl (ExtractZipFailed err), f)
      | Inr f1 \<Rightarrow>
          (case zip_entries e buffer of
             None \<Rightarrow> (Inl (ExtractZipFailed InvalidZip), f1)
           | Some entries \<Rightarrow>
               (case extractAllTo e destDir entries f1 of
                  (Inl err, f2) \<Rightarrow> (Inl (ExtractZipFailed err), f2)
                | (Inr u, f2) \<Rightarrow> (Inr (), f2))))"

definition validateDocsDirectory :: "(string \<rightharpoonup> node) \<Rightarrow> string \<Rightarrow> bool" where
  "validateDocsDirectory f dir =
     (access f dir \<and> access f (path_join dir ''class_lookup.json''))"

text \<open>
  \<open>downloadAndExtractDocs\<close>: the \<open>catch\<close> block logs and throws the error again, so
  every failure between the download and the validation is passed on to the caller.
  An absent or empty \<open>docsUrl\<close> is falsy.
\<close>

definition downloadAndExtractDocs :: "env \<Rightarrow> ServerConfig \<Rightarrow> world \<Rightarrow> (error + unit) \<times> world" where
  "downloadAndExtractDocs e config w =
     (case docsUrl config of
        None \<Rightarrow> (Inr (), w)
      | Some url \<Rightarrow>
          if url = [] then (Inr (), w)
          else if \<not> hasUrlChanged (fs w) (docsDir config) url then (Inr (), w)
          else
            (case downloadFile e url (docsDownloadTimeout config) w of
               (Inl err, w1) \<Rightarrow> (Inl err, w1)
             | (Inr zipBuffer, w1) \<Rightarrow>
                 (case extractZip e zipBuffer (docsDir config) (fs w1) of
                    (Inl err, f2) \<Rightarrow> (Inl err, w1\<lparr>fs := f2\<rparr>)
                  | (Inr u, f2) \<Rightarrow>
                      if \<not> validateDocsDirectory f2 (docsDir config)
                      then (Inl MissingClassLookup, w1\<lparr>fs := f2\<rparr>)
                      else (Inr (), w1\<lparr>fs := saveLastUrl e f2 (docsDir config) url\<rparr>))))"

section \<open>What the operations are specified to return\<close>

text \<open>
  Search, in the words of its specification: the entries whose name contains the
  query, in index order; of the entries that share a path only the first; at most 25.
\<close>

definition name_matches :: "string \<Rightarrow> string \<times> ClassInfo \<Rightarrow> bool" where
  "name_matches q entry = str_includes (toLowerCase (fst entry)) q"

function first_per_path :: "ClassLookup \<Rightarrow> ClassLookup" where
  "first_per_path [] = []"
| "first_per_path (x # xs) = x # first_per_path (filter (\<lambda>y. path (snd y) \<noteq> path (snd x)) xs)"
  by pat_completeness auto
termination
  by (relation "measure length") (auto simp: less_Suc_eq_le)

definition search_spec :: "ClassLookup \<Rightarrow> string \<Rightarrow> ClassInfo list" where
  "search_spec lookup q = take 25 (map snd (first_per_path (filter (name_matches q) lookup)))"

definition search_text :: "ClassInfo list \<Rightarrow> string" where
  "search_text infos =
     (if infos = [] then ''No matches found for your search query.''
      else join_lines (map match_line infos))"

text \<open>
  Retrieve, in the words of its specification: the entry under the exact key, and
  only when there is none the entry of the first key, in index order, that is equal
  to the name once both are lower-cased.
\<close>

definition resolve_spec :: "ClassLookup \<Rightarrow> string \<Rightarrow> ClassInfo option" where
  "resolve_spec lookup name =
     (case map_of lookup name of
        Some info \<Rightarrow> Some info
      | None \<Rightarrow>
          map_option snd (find (\<lambda>entry. toLowerCase (fst entry) = toLowerCase name) lookup))"

section \<open>Sample store\<close>

definition demo_lookup :: ClassLookup where
  "demo_lookup =
     [(''a.Foo'', \<lparr>full_name = ''a.Foo'', path = ''f1'', type = Class, package = ''a''\<rparr>),
      (''a.Bar'', \<lparr>full_name = ''a.Bar'', path = ''f2'', type = Interface, package = ''a''\<rparr>),
      (''a.Baz'', \<lparr>full_name = ''a.Baz'', path = ''f1'', type = Enum, package = ''a''\<rparr>),
      (''Constructor'',
       \<lparr>full_name = ''Constructor'', path = ''c.md'', type = Class, package = []\<rparr>)]"

definition demo_fs :: "string \<rightharpoonup> node" where
  "demo_fs =
     [''docs'' \<mapsto> Dir,
      ''docs/class_lookup.json'' \<mapsto> File ''INDEX'',
      ''docs/f1'' \<mapsto> File ''Foo body'',
      ''docs/f2'' \<mapsto> File ''Bar body'',
      ''docs/c.md'' \<mapsto> File ''Constructor body'']"

definition demo_env :: env where
  "demo_env =
     \<lparr>http_get = (\<lambda>url timeout. FetchThrows),
      zip_entries = (\<lambda>buffer. None),
      entry_place = path_join,
      json_parse = (\<lambda>data. if data = ''INDEX'' then Some demo_lookup else None),
      write_fails = (\<lambda>p. False)\<rparr>"

text \<open>
  A configuration with a remote archive, a remote end that serves an archive of three
  entries (the index and two of the files it names), and the same with a write
  refused at one path.
\<close>

definition demo_config :: ServerConfig where
  "demo_config =
     \<lparr>docsDir = ''docs'', lookupFile = ''docs/class_lookup.json'',
      docsUrl = Some ''https://host/docs-v2.zip'', docsDownloadTimeout = 300000\<rparr>"

definition demo_world :: world where
  "demo_world = \<lparr>fs = demo_fs, net_calls = 0\<rparr>"

definition demo_archive :: "(string \<times> string) list" where
  "demo_archive =
     [(''f1'', ''Foo body v2''), (''f2'', ''Bar body v2''), (''class_lookup.json'', ''INDEX'')]"

definition remote_env :: env where
  "remote_env =
     \<lparr>http_get = (\<lambda>url timeout. FetchResponse 200 ''ZIP''),
      zip_entries = (\<lambda>buffer. if buffer = ''ZIP'' then Some demo_archive else None),
      entry_place = path_join,
      json_parse = (\<lambda>data. if data = ''INDEX'' then Some demo_lookup else None),
      write_fails = (\<lambda>p. False)\<rparr>"

definition refusing_env :: "string \<Rightarrow> env" where
  "refusing_env refused = remote_env\<lparr>write_fails := (\<lambda>p. p = refused)\<rparr>"


definition empty_docs_fs :: "string \<rightharpoonup> node" where
  "empty_docs_fs = [''docs'' \<mapsto> Dir]"

text \<open>The store after \<open>demo_archive\<close> has been extracted over it.\<close>

definition extracted :: "(string \<rightharpoonup> node) \<Rightarrow> (string \<rightharpoonup> node)" where
  "extracted f =
     f(''docs/f1'' \<mapsto> File ''Foo body v2'', ''docs/f2'' \<mapsto> File ''Bar body v2'',
       ''docs/class_lookup.json'' \<mapsto> File ''INDEX'')"

section \<open>Substring test\<close>

lemma startsWith_iff: "startsWith s q \<longleftrightarrow> (\<exists>post. s = q @ post)"
  by (induction s q rule: startsWith.induct) auto

lemma str_includes_iff: "str_includes s q \<longleftrightarrow> (\<exists>pre post. s = pre @ q @ post)"
proof (induction s)
  case Nil
  then show ?case by auto
next
  case (Cons c s)
  show ?case
  proof
    assume "str_includes (c # s) q"
    then consider "startsWith (c # s) q" | "str_includes s q" by auto
    then show "\<exists>pre post. c # s = pre @ q @ post"
    proof cases
      case 1
      then obtain post where "c # s = q @ post" by (auto simp: startsWith_iff)
      then have "c # s = [] @ q @ post" by simp
      then show ?thesis by blast
    next
      case 2
      then obtain pre post where "s = pre @ q @ post" using Cons.IH by auto
      then have "c # s = (c # pre) @ q @ post" by simp
      then show ?thesis by blast
    qed
  next
    assume "\<exists>pre post. c # s = pre @ q @ post"
    then obtain pre post where eq: "c # s = pre @ q @ post" by auto
    show "str_includes (c # s) q"
    proof (cases pre)
      case Nil
      then have "startsWith (c # s) q" using eq by (auto simp: startsWith_iff)
      then show ?thesis by simp
    next
      case (Cons a pre')
      then have "s = pre' @ q @ post" using eq by simp
      then have "str_includes s q" using Cons.IH by blast
      then show ?thesis by simp
    qed
  qed
qed

section \<open>Search\<close>

lemma filter_seen_insert:
  "filter (\<lambda>y. path (snd y) \<noteq> p) (filter (\<lambda>y. path (snd y) \<notin> seen) xs)
     = filter (\<lambda>y. path (snd y) \<notin> insert p seen) xs"
  by (induction xs) auto

text \<open>
  The loop invariant: with room left in \<open>matches\<close>, the loop appends the lines of the
  first entries per path among the matching entries whose path is not yet seen, up to
  the cap.
\<close>

lemma search_loop_eq:
  "length matches < MAX_SEARCH_RESULTS \<Longrightarrow>
   search_loop lookup q matches seenPaths =
     matches @ map (match_line \<circ> snd)
       (take (MAX_SEARCH_RESULTS - length matches)
          (first_per_path
             (filter (\<lambda>y. path (snd y) \<notin> seenPaths) (filter (name_matches q) lookup))))"
proof (induction lookup arbitrary: matches seenPaths)
  case Nil
  then show ?case by simp
next
  case (Cons x rest)
  obtain className info where x: "x = (className, info)" by (cases x)
  show ?case
  proof (cases "str_includes (toLowerCase className) q \<and> path info \<notin> seenPaths")
    case False
    then show ?thesis using Cons x by (auto simp: name_matches_def)
  next
    case True
    show ?thesis
    proof (cases "length (matches @ [match_line info]) \<ge> MAX_SEARCH_RESULTS")
      case full: True
      with Cons.prems have "MAX_SEARCH_RESULTS - length matches = Suc 0" by simp
      then show ?thesis using True full x by (simp add: name_matches_def)
    next
      case notfull: False
      then have lt: "length (matches @ [match_line info]) < MAX_SEARCH_RESULTS" by simp
      have m: "MAX_SEARCH_RESULTS - length matches
                 = Suc (MAX_SEARCH_RESULTS - length (matches @ [match_line info]))"
        using lt by simp
      show ?thesis
        using True notfull x Cons.IH [OF lt, of "insert (path info) seenPaths"]
        by (simp add: name_matches_def m filter_seen_insert Let_def conj_ac del: length_append)
    qed
  qed
qed

lemma search_loop_spec:
  "search_loop lookup q [] {} = map match_line (search_spec lookup q)"
proof -
  have "search_loop lookup q [] {} =
          map (match_line \<circ> snd) (take MAX_SEARCH_RESULTS (first_per_path (filter (name_matches q) lookup)))"
    using search_loop_eq [of "[]" lookup q "{}"] by (simp add: MAX_SEARCH_RESULTS_def)
  then show ?thesis
    by (simp add: search_spec_def MAX_SEARCH_RESULTS_def take_map)
qed

text \<open>What \<open>first_per_path\<close> keeps: no path twice, every path of the list, a sublist.\<close>

lemma first_per_path_set: "set (first_per_path xs) \<subseteq> set xs"
proof (induction xs rule: first_per_path.induct)
  case 1
  then show ?case by simp
next
  case (2 x xs)
  then show ?case by auto
qed

lemma first_per_path_paths:
  "path ` snd ` set (first_per_path xs) = path ` snd ` set xs"
proof (induction xs rule: first_per_path.induct)
  case 1
  then show ?case by simp
next
  case (2 x xs)
  have "path ` snd ` set (x # xs) =
          insert (path (snd x)) (path ` snd ` set (filter (\<lambda>y. path (snd y) \<noteq> path (snd x)) xs))"
    by auto
  then show ?case using 2 by simp
qed

lemma first_per_path_distinct: "distinct (map (path \<circ> snd) (first_per_path xs))"
proof (induction xs rule: first_per_path.induct)
  case 1
  then show ?case by simp
next
  case (2 x xs)
  have "path (snd x) \<notin> path ` snd ` set (filter (\<lambda>y. path (snd y) \<noteq> path (snd x)) xs)"
    by auto
  then have "path (snd x) \<notin> path ` snd ` set (first_per_path (filter (\<lambda>y. path (snd y) \<noteq> path (snd x)) xs))"
    using first_per_path_paths [of "filter (\<lambda>y. path (snd y) \<noteq> path (snd x)) xs"] by simp
  then show ?case using 2 by (simp add: image_image)
qed

text \<open>
  C3. With the index loaded and a query that is not empty once lower-cased and
  trimmed, \<open>searchHytaleClasses\<close> returns the lines of exactly the entries whose key
  contains the query without regard to case, in the order of the index, the first
  entry only of those that share a path, cut after 25, and nothing else in the text;
  with no entry it returns the fixed sentence.
\<close>

theorem search_returns_first_matches_capped:
  assumes "loadLookup e f lookup_file lookupCache = (Some lookup, cache)"
    and "trim (toLowerCase query_arg) \<noteq> []"
  shows "searchHytaleClasses e f query_arg lookup_file lookupCache =
           (Inr (search_text (search_spec lookup (trim (toLowerCase query_arg)))), cache)
         \<and> length (search_spec lookup (trim (toLowerCase query_arg))) \<le> 25"
proof -
  have "search_loop lookup (trim (toLowerCase query_arg)) [] {} =
          map match_line (search_spec lookup (trim (toLowerCase query_arg)))"
    by (rule search_loop_spec)
  then have "searchHytaleClasses e f query_arg lookup_file lookupCache =
           (Inr (search_text (search_spec lookup (trim (toLowerCase query_arg)))), cache)"
    using assms by (simp add: searchHytaleClasses_def search_text_def Let_def)
  moreover have "length (search_spec lookup (trim (toLowerCase query_arg))) \<le> 25"
    by (simp add: search_spec_def)
  ultimately show ?thesis by simp
qed

theorem search_returns_first_matches_capped_witness:
  "loadLookup demo_env demo_fs ''docs/class_lookup.json'' None = (Some demo_lookup, Some demo_lookup)
   \<and> trim (toLowerCase '' BA '') \<noteq> []
   \<and> searchHytaleClasses demo_env demo_fs '' BA '' ''docs/class_lookup.json'' None =
       (Inr (''- a.Bar (interface)'' @ [CHR 0x0A] @ ''- a.Baz (enum)''), Some demo_lookup)"
proof -
  have h1: "loadLookup demo_env demo_fs ''docs/class_lookup.json'' None
              = (Some demo_lookup, Some demo_lookup)"
    by (simp add: loadLookup_def readFile_def demo_fs_def demo_env_def)
  have q: "trim (toLowerCase '' BA '') = ''ba''"
    by code_simp
  have h2: "trim (toLowerCase '' BA '') \<noteq> []"
    by (simp add: q)
  have s: "search_spec demo_lookup ''ba'' = [snd (demo_lookup ! 1), snd (demo_lookup ! 2)]"
    by code_simp
  have t: "search_text [snd (demo_lookup ! 1), snd (demo_lookup ! 2)]
             = ''- a.Bar (interface)'' @ [CHR 0x0A] @ ''- a.Baz (enum)''"
    by (simp add: search_text_def match_line_def demo_lookup_def)
  have "searchHytaleClasses demo_env demo_fs '' BA '' ''docs/class_lookup.json'' None =
          (Inr (search_text [snd (demo_lookup ! 1), snd (demo_lookup ! 2)]), Some demo_lookup)"
    using search_returns_first_matches_capped [OF h1 h2] by (simp only: q s)
  then show ?thesis
    using h1 h2 by (simp only: t) simp
qed

section \<open>Retrieve\<close>

lemma scan_keys_find:
  "scan_keys lookup l =
     (case find (\<lambda>entry. toLowerCase (fst entry) = l) lookup of
        None \<Rightarrow> Undefined | Some entry \<Rightarrow> Own (snd entry))"
  by (induction lookup) auto

lemma find_class_info_spec:
  "name \<notin> set object_prototype_keys \<Longrightarrow>
   find_class_info lookup name =
     (case resolve_spec lookup name of None \<Rightarrow> Undefined | Some info \<Rightarrow> Own info)"
  by (simp add: find_class_info_def get_property_def resolve_spec_def scan_keys_find
      split: option.splits)

lemma retrieve_resolution:
  assumes "loadLookup e f lookup_file lookupCache = (Some lookup, cache)"
    and "trim full_class_name \<noteq> []"
    and "trim full_class_name \<notin> set object_prototype_keys"
  shows "readHytaleClassDocs e f full_class_name lookup_file docs lookupCache =
           (case resolve_spec lookup (trim full_class_name) of
              None \<Rightarrow> (Inl (ClassNotFound (trim full_class_name)), cache)
            | Some info \<Rightarrow> (readFile f (path_join docs (path info)), cache))"
  using assms
  by (simp add: readHytaleClassDocs_def find_class_info_spec Let_def split: option.splits)

lemma readFile_verbatim: "f p = Some (File c) \<Longrightarrow> readFile f p = Inr c"
  by (simp add: readFile_def)

text \<open>
  C4. The claim: every name that is not empty once trimmed is resolved by the exact
  key first and, only when that is absent, by the first key in index order that is
  equal once both are lower-cased, and the file of the entry found is returned as it
  is. For a name outside \<open>object_prototype_keys\<close> the code does so
  (\<open>retrieve_resolution\<close>, \<open>readFile_verbatim\<close>). For the name \<open>constructor\<close> and
  an index with the key \<open>Constructor\<close> it does not: there is no exact key, the scan
  would find \<open>Constructor\<close>, whose file is in the store, yet the property read finds
  the inherited member, the scan is skipped, and the call ends in the \<open>TypeError\<close> of
  \<open>path.join\<close>.
\<close>

theorem retrieve_inherited_name_skips_scan:
  "resolve_spec demo_lookup ''constructor'' = Some (snd (demo_lookup ! 3))
   \<and> readFile demo_fs (path_join ''docs'' (path (snd (demo_lookup ! 3)))) = Inr ''Constructor body''
   \<and> readHytaleClassDocs demo_env demo_fs ''constructor'' ''docs/class_lookup.json'' ''docs'' None
       = (Inl InvalidArgType, Some demo_lookup)"
proof -
  have a: "resolve_spec demo_lookup ''constructor'' = Some (snd (demo_lookup ! 3))"
    by code_simp
  have b: "readFile demo_fs (path_join ''docs'' (path (snd (demo_lookup ! 3)))) = Inr ''Constructor body''"
    by (simp add: readFile_def demo_fs_def path_join_def demo_lookup_def)
  have l: "loadLookup demo_env demo_fs ''docs/class_lookup.json'' None
              = (Some demo_lookup, Some demo_lookup)"
    by (simp add: loadLookup_def readFile_def demo_fs_def demo_env_def)
  have t: "trim ''constructor'' = ''constructor''"
    by code_simp
  have g: "find_class_info demo_lookup ''constructor'' = Inherited"
    by (simp add: find_class_info_def get_property_def demo_lookup_def object_prototype_keys_def)
  have c: "readHytaleClassDocs demo_env demo_fs ''constructor'' ''docs/class_lookup.json'' ''docs'' None
       = (Inl InvalidArgType, Some demo_lookup)"
    by (simp add: readHytaleClassDocs_def l t g)
  show ?thesis using a b c by simp
qed

text \<open>
  C5, as claimed: whenever the name resolves to an entry whose file is missing,
  Retrieve fails with an error that tells the missing body, and with the not-found
  error when the name resolves to nothing. It does not hold: the name
  \<open>constructor\<close> resolves, by the rule of the specification, to the entry
  \<open>Constructor\<close>, whose file is missing from the store below, and Retrieve fails with
  the \<open>TypeError\<close> of \<open>path.join\<close>, the same error it fails with when the file is
  there; the name \<open>toString\<close> resolves to nothing, and Retrieve fails with that
  \<open>TypeError\<close> too, not with the not-found error. For an ordinary name whose file is
  missing, the error is the one the file read raised, no error of a kind of its own.
\<close>

theorem missing_file_of_inherited_name_counterexample:
  "resolve_spec demo_lookup ''constructor'' = Some (snd (demo_lookup ! 3))
   \<and> (demo_fs(''docs/c.md'' := None)) (path_join ''docs'' (path (snd (demo_lookup ! 3)))) = None
   \<and> readHytaleClassDocs demo_env (demo_fs(''docs/c.md'' := None)) ''constructor''
         ''docs/class_lookup.json'' ''docs'' None
       = (Inl InvalidArgType, Some demo_lookup)
   \<and> readHytaleClassDocs demo_env demo_fs ''constructor'' ''docs/class_lookup.json'' ''docs'' None
       = (Inl InvalidArgType, Some demo_lookup)
   \<and> resolve_spec demo_lookup ''toString'' = None
   \<and> readHytaleClassDocs demo_env demo_fs ''toString'' ''docs/class_lookup.json'' ''docs'' None
       = (Inl InvalidArgType, Some demo_lookup)
   \<and> fst (readHytaleClassDocs demo_env (demo_fs(''docs/f2'' := None)) ''a.Bar''
             ''docs/class_lookup.json'' ''docs'' None)
       = readFile (demo_fs(''docs/f2'' := None)) ''docs/f2''"
proof -
  let ?gone = "demo_fs(''docs/c.md'' := None)"
  have a: "resolve_spec demo_lookup ''constructor'' = Some (snd (demo_lookup ! 3))"
    by code_simp
  have p: "path_join ''docs'' (path (snd (demo_lookup ! 3))) = ''docs/c.md''"
    by (simp add: path_join_def demo_lookup_def)
  have b: "?gone (path_join ''docs'' (path (snd (demo_lookup ! 3)))) = None"
    unfolding p by simp
  have l: "loadLookup demo_env demo_fs ''docs/class_lookup.json'' None
              = (Some demo_lookup, Some demo_lookup)"
    by (simp add: loadLookup_def readFile_def demo_fs_def demo_env_def)
  have l': "loadLookup demo_env ?gone ''docs/class_lookup.json'' None
              = (Some demo_lookup, Some demo_lookup)"
    by (simp add: loadLookup_def readFile_def demo_fs_def demo_env_def)
  have t: "trim ''constructor'' = ''constructor''" by code_simp
  have t': "trim ''toString'' = ''toString''" by code_simp
  have g: "find_class_info demo_lookup ''constructor'' = Inherited"
    by (simp add: find_class_info_def get_property_def demo_lookup_def object_prototype_keys_def)
  have g': "find_class_info demo_lookup ''toString'' = Inherited"
    by (simp add: find_class_info_def get_property_def demo_lookup_def object_prototype_keys_def)
  have c: "readHytaleClassDocs demo_env ?gone ''constructor'' ''docs/class_lookup.json'' ''docs'' None
       = (Inl InvalidArgType, Some demo_lookup)"
    by (simp add: readHytaleClassDocs_def l' t g)
  have d: "readHytaleClassDocs demo_env demo_fs ''constructor'' ''docs/class_lookup.json'' ''docs'' None
       = (Inl InvalidArgType, Some demo_lookup)"
    by (simp add: readHytaleClassDocs_def l t g)
  have n: "resolve_spec demo_lookup ''toString'' = None"
    by code_simp
  have x: "readHytaleClassDocs demo_env demo_fs ''toString'' ''docs/class_lookup.json'' ''docs'' None
       = (Inl InvalidArgType, Some demo_lookup)"
    by (simp add: readHytaleClassDocs_def l t' g')
  have l2: "loadLookup demo_env (demo_fs(''docs/f2'' := None)) ''docs/class_lookup.json'' None
              = (Some demo_lookup, Some demo_lookup)"
    by (simp add: loadLookup_def readFile_def demo_fs_def demo_env_def)
  have t2: "trim ''a.Bar'' = ''a.Bar''" by code_simp
  have g2: "find_class_info demo_lookup ''a.Bar'' = Own (snd (demo_lookup ! 1))"
    by (simp add: find_class_info_def get_property_def demo_lookup_def)
  have y: "fst (readHytaleClassDocs demo_env (demo_fs(''docs/f2'' := None)) ''a.Bar''
             ''docs/class_lookup.json'' ''docs'' None)
       = readFile (demo_fs(''docs/f2'' := None)) ''docs/f2''"
    by (simp add: readHytaleClassDocs_def l2 t2 g2) (simp add: path_join_def demo_lookup_def)
  show ?thesis using a b c d n x y by (intro conjI)
qed

text \<open>
  C5, amended. For a name that is not the name of a member of \<open>Object.prototype\<close>:
  when it resolves, by the exact key or else by the first key equal without regard to
  case, to an entry whose file cannot be read, Retrieve fails with the very error the
  file read raised, passed on as it is (for a missing file the \<open>ENOENT\<close> error with the
  path); the code has no error of its own for a missing body. When the name resolves
  to nothing, Retrieve fails with the not-found error.
\<close>

theorem retrieve_passes_on_read_error:
  assumes "loadLookup e f lookup_file lookupCache = (Some lookup, cache)"
    and "trim full_class_name \<noteq> []"
    and "trim full_class_name \<notin> set object_prototype_keys"
  shows "(\<forall>info err. resolve_spec lookup (trim full_class_name) = Some info
            \<and> readFile f (path_join docs (path info)) = Inl err
          \<longrightarrow> readHytaleClassDocs e f full_class_name lookup_file docs lookupCache
                = (Inl err, cache))
       \<and> (\<forall>info. resolve_spec lookup (trim full_class_name) = Some info
            \<and> f (path_join docs (path info)) = None
          \<longrightarrow> readHytaleClassDocs e f full_class_name lookup_file docs lookupCache
                = (Inl (FsError ENOENT (path_join docs (path info))), cache))
       \<and> (resolve_spec lookup (trim full_class_name) = None
          \<longrightarrow> readHytaleClassDocs e f full_class_name lookup_file docs lookupCache
                = (Inl (ClassNotFound (trim full_class_name)), cache))"
proof -
  note r = retrieve_resolution [OF assms, of docs]
  have one: "\<forall>info err. resolve_spec lookup (trim full_class_name) = Some info
            \<and> readFile f (path_join docs (path info)) = Inl err
          \<longrightarrow> readHytaleClassDocs e f full_class_name lookup_file docs lookupCache
                = (Inl err, cache)"
    using r by simp
  have two: "\<forall>info. resolve_spec lookup (trim full_class_name) = Some info
            \<and> f (path_join docs (path info)) = None
          \<longrightarrow> readHytaleClassDocs e f full_class_name lookup_file docs lookupCache
                = (Inl (FsError ENOENT (path_join docs (path info))), cache)"
    using r by (simp add: readFile_def)
  have three: "resolve_spec lookup (trim full_class_name) = None
          \<longrightarrow> readHytaleClassDocs e f full_class_name lookup_file docs lookupCache
                = (Inl (ClassNotFound (trim full_class_name)), cache)"
    using r by simp
  show ?thesis using one two three by (intro conjI)
qed

theorem retrieve_passes_on_read_error_witness:
  "loadLookup demo_env (demo_fs(''docs/f2'' := None)) ''docs/class_lookup.json'' None
      = (Some demo_lookup, Some demo_lookup)
   \<and> trim ''a.Bar'' \<noteq> []
   \<and> trim ''a.Bar'' \<notin> set object_prototype_keys
   \<and> resolve_spec demo_lookup (trim ''a.Bar'') = Some (snd (demo_lookup ! 1))
   \<and> (demo_fs(''docs/f2'' := None)) (path_join ''docs'' (path (snd (demo_lookup ! 1)))) = None
   \<and> readHytaleClassDocs demo_env (demo_fs(''docs/f2'' := None)) ''a.Bar''
         ''docs/class_lookup.json'' ''docs'' None
       = (Inl (FsError ENOENT ''docs/f2''), Some demo_lookup)
   \<and> trim ''a.Qux'' \<noteq> []
   \<and> trim ''a.Qux'' \<notin> set object_prototype_keys
   \<and> resolve_spec demo_lookup (trim ''a.Qux'') = None
   \<and> readHytaleClassDocs demo_env (demo_fs(''docs/f2'' := None)) ''a.Qux''
         ''docs/class_lookup.json'' ''docs'' None
       = (Inl (ClassNotFound ''a.Qux''), Some demo_lookup)"
proof -
  let ?f = "demo_fs(''docs/f2'' := None)"
  have l: "loadLookup demo_env ?f ''docs/class_lookup.json'' None
             = (Some demo_lookup, Some demo_lookup)"
    by (simp add: loadLookup_def readFile_def demo_fs_def demo_env_def)
  have t1: "trim ''a.Bar'' = ''a.Bar''" by code_simp
  have t2: "trim ''a.Qux'' = ''a.Qux''" by code_simp
  have n1: "trim ''a.Bar'' \<noteq> []" by (simp add: t1)
  have n2: "trim ''a.Qux'' \<noteq> []" by (simp add: t2)
  have k1: "trim ''a.Bar'' \<notin> set object_prototype_keys"
    by (simp add: t1 object_prototype_keys_def)
  have k2: "trim ''a.Qux'' \<notin> set object_prototype_keys"
    by (simp add: t2 object_prototype_keys_def)
  have o: "resolve_spec demo_lookup (trim ''a.Bar'') = Some (snd (demo_lookup ! 1))"
    unfolding t1 by code_simp
  have u: "resolve_spec demo_lookup (trim ''a.Qux'') = None"
    unfolding t2 by code_simp
  have p: "path_join ''docs'' (path (snd (demo_lookup ! 1))) = ''docs/f2''"
    by (simp add: path_join_def demo_lookup_def)
  have m: "?f (path_join ''docs'' (path (snd (demo_lookup ! 1)))) = None"
    unfolding p by simp
  note a = retrieve_passes_on_read_error [OF l n1 k1, of "''docs''", THEN conjunct2, THEN conjunct1]
  note b = retrieve_passes_on_read_error [OF l n2 k2, of "''docs''", THEN conjunct2, THEN conjunct2]
  have c1 [unfolded p]:
    "readHytaleClassDocs demo_env ?f ''a.Bar'' ''docs/class_lookup.json'' ''docs'' None
       = (Inl (FsError ENOENT (path_join ''docs'' (path (snd (demo_lookup ! 1))))), Some demo_lookup)"
    by (rule a [THEN spec, THEN mp]) (intro conjI o m)
  have c2 [unfolded t2]:
    "readHytaleClassDocs demo_env ?f ''a.Qux'' ''docs/class_lookup.json'' ''docs'' None
       = (Inl (ClassNotFound (trim ''a.Qux'')), Some demo_lookup)"
    by (rule b [THEN mp]) (rule u)
  show ?thesis
    using l n1 k1 o m c1 n2 k2 u c2 by (intro conjI)
qed

section \<open>Loading the index\<close>

text \<open>
  C6, as claimed: after a failed load every later query of the same process sees the
  same failure. It does not hold: the first load below fails for want of the index
  file; the second, started with the cache the first one left and with the file in
  place, succeeds.
\<close>

theorem failed_load_is_retried_counterexample:
  "loadLookup demo_env (demo_fs(''docs/class_lookup.json'' := None)) ''docs/class_lookup.json'' None
      = (None, None)
   \<and> loadLookup demo_env demo_fs ''docs/class_lookup.json''
        (snd (loadLookup demo_env (demo_fs(''docs/class_lookup.json'' := None))
                ''docs/class_lookup.json'' None))
      = (Some demo_lookup, Some demo_lookup)"
  by (simp add: loadLookup_def readFile_def demo_fs_def demo_env_def)

text \<open>
  C6, amended. A failed load is not remembered: it leaves the cache empty, and every
  later query reads and parses the index file again. The load fails again for as
  long as the file cannot be read or parsed, and succeeds, filling the cache, as soon
  as it can.
\<close>

theorem failed_load_is_not_cached:
  assumes "loadLookup e f lookup_file lookupCache = (None, cache)"
  shows "lookupCache = None \<and> cache = None
         \<and> loadLookup e f lookup_file cache = (None, None)
         \<and> (\<forall>f' lookup. readFile f' lookup_file = Inr data \<and> json_parse e data = Some lookup
              \<longrightarrow> loadLookup e f' lookup_file cache = (Some lookup, Some lookup))
         \<and> (\<forall>f'. (\<exists>err. readFile f' lookup_file = Inl err) \<or> (\<exists>d. readFile f' lookup_file = Inr d \<and> json_parse e d = None)
              \<longrightarrow> loadLookup e f' lookup_file cache = (None, None))"
  using assms
  by (auto simp: loadLookup_def split: option.splits sum.splits)

theorem failed_load_is_not_cached_witness:
  "loadLookup demo_env (demo_fs(''docs/class_lookup.json'' := None)) ''docs/class_lookup.json'' None
      = (None, None)
   \<and> readFile demo_fs ''docs/class_lookup.json'' = Inr ''INDEX''
   \<and> json_parse demo_env ''INDEX'' = Some demo_lookup
   \<and> loadLookup demo_env demo_fs ''docs/class_lookup.json'' None = (Some demo_lookup, Some demo_lookup)
   \<and> readFile (demo_fs(''docs/class_lookup.json'' \<mapsto> File ''{'')) ''docs/class_lookup.json'' = Inr ''{''
   \<and> json_parse demo_env ''{'' = None
   \<and> loadLookup demo_env (demo_fs(''docs/class_lookup.json'' \<mapsto> File ''{''))
         ''docs/class_lookup.json'' None = (None, None)"
proof -
  let ?gone = "demo_fs(''docs/class_lookup.json'' := None)"
  let ?bad = "demo_fs(''docs/class_lookup.json'' \<mapsto> File ''{'')"
  have h: "loadLookup demo_env ?gone ''docs/class_lookup.json'' None = (None, None)"
    by (simp add: loadLookup_def readFile_def)
  have r: "readFile demo_fs ''docs/class_lookup.json'' = Inr ''INDEX''"
    by (simp add: readFile_def demo_fs_def)
  have j: "json_parse demo_env ''INDEX'' = Some demo_lookup"
    by (simp add: demo_env_def)
  have r': "readFile ?bad ''docs/class_lookup.json'' = Inr ''{''"
    by (simp add: readFile_def)
  have j': "json_parse demo_env ''{'' = None"
    by (simp add: demo_env_def)
  note t = failed_load_is_not_cached [OF h, of "''INDEX''"]
  from t r j have a: "loadLookup demo_env demo_fs ''docs/class_lookup.json'' None
      = (Some demo_lookup, Some demo_lookup)"
    by blast
  from t r' j' have b: "loadLookup demo_env ?bad ''docs/class_lookup.json'' None = (None, None)"
    by blast
  show ?thesis using h r j a r' j' b by blast
qed

section \<open>Writes of the provisioning run\<close>

lemma path_join_inject [simp]: "path_join d a = path_join d b \<longleftrightarrow> a = b"
  by (simp add: path_join_def)

lemma path_join_neq_dir [simp]: "path_join d a \<noteq> d"
  by (simp add: path_join_def)

lemma writeFile_frame: "writeFile e f p c = Inr f' \<Longrightarrow> q \<noteq> p \<Longrightarrow> f' q = f q"
  by (auto simp: writeFile_def split: if_splits)


lemma writeFile_access: "writeFile e f p c = Inr f' \<Longrightarrow> access f q \<Longrightarrow> access f' q"
  by (auto simp: writeFile_def access_def split: if_splits)


lemma mkdir_frame: "mkdir e f d = Inr f' \<Longrightarrow> q \<noteq> d \<Longrightarrow> f' q = f q"
  by (auto simp: mkdir_def split: option.splits node.splits if_splits)




lemma saveLastUrl_access: "access f q \<Longrightarrow> access (saveLastUrl e f d u) q"
  by (auto simp: saveLastUrl_def split: sum.splits dest: writeFile_access)

lemma saveLastUrl_frame: "q \<noteq> path_join d LAST_URL_FILE \<Longrightarrow> saveLastUrl e f d u q = f q"
  by (auto simp: saveLastUrl_def split: sum.splits dest: writeFile_frame)





text \<open>The run once the download is attempted.\<close>

lemma download_attempted:
  assumes "docsUrl config = Some url" and "url \<noteq> []"
    and "hasUrlChanged (fs w) (docsDir config) url"
  shows "downloadAndExtractDocs e config w =
     (case downloadFile e url (docsDownloadTimeout config) w of
        (Inl err, w1) \<Rightarrow> (Inl err, w1)
      | (Inr zipBuffer, w1) \<Rightarrow>
          (case extractZip e zipBuffer (docsDir config) (fs w1) of
             (Inl err, f2) \<Rightarrow> (Inl err, w1\<lparr>fs := f2\<rparr>)
           | (Inr u, f2) \<Rightarrow>
               if \<not> validateDocsDirectory f2 (docsDir config)
               then (Inl MissingClassLookup, w1\<lparr>fs := f2\<rparr>)
               else (Inr (), w1\<lparr>fs := saveLastUrl e f2 (docsDir config) url\<rparr>)))"
  using assms by (simp add: downloadAndExtractDocs_def)

lemma downloadFile_world: "snd (downloadFile e url t w) = w\<lparr>net_calls := net_calls w + 1\<rparr>"
  by (simp add: downloadFile_def)

lemma download_attempted_net_calls:
  assumes "docsUrl config = Some url" and "url \<noteq> []"
    and "hasUrlChanged (fs w) (docsDir config) url"
  shows "net_calls (snd (downloadAndExtractDocs e config w)) = net_calls w + 1"
proof -
  obtain r w1 where d: "downloadFile e url (docsDownloadTimeout config) w = (r, w1)"
    by (cases "downloadFile e url (docsDownloadTimeout config) w")
  then have w1: "w1 = w\<lparr>net_calls := net_calls w + 1\<rparr>"
    using downloadFile_world [of e url "docsDownloadTimeout config" w] by simp
  show ?thesis
    using d w1 by (simp add: download_attempted [OF assms] split: sum.splits prod.splits)
qed

section \<open>Facts about the sample store\<close>

lemma demo_load:
  "loadLookup demo_env demo_fs ''docs/class_lookup.json'' None = (Some demo_lookup, Some demo_lookup)"
  by (simp add: loadLookup_def readFile_def demo_fs_def demo_env_def)

lemma demo_retrieve_foo:
  "readHytaleClassDocs demo_env demo_fs ''a.Foo'' ''docs/class_lookup.json'' ''docs'' None
     = (Inr ''Foo body'', Some demo_lookup)"
proof -
  have t: "trim ''a.Foo'' = ''a.Foo''" by code_simp
  have o: "find_class_info demo_lookup ''a.Foo'' = Own (snd (demo_lookup ! 0))"
    by (simp add: find_class_info_def get_property_def demo_lookup_def)
  show ?thesis
    by (simp add: readHytaleClassDocs_def demo_load t o)
      (simp add: demo_lookup_def path_join_def readFile_def demo_fs_def)
qed

lemma demo_url_changed: "hasUrlChanged demo_fs ''docs'' ''https://host/docs-v2.zip''"
  by (simp add: hasUrlChanged_def readFile_def demo_fs_def path_join_def LAST_URL_FILE_def)

lemma demo_fetch_throws:
  "downloadFile demo_env url t w = (Inl FetchFailed, w\<lparr>net_calls := net_calls w + 1\<rparr>)"
  by (simp add: downloadFile_def demo_env_def)

section \<open>Provisioning: a failed fetch\<close>

text \<open>
  C2, as claimed: when the fetch fails and a valid bundle is on disk, provisioning
  ends without an error. It does not hold: the sample store is valid and answers
  Retrieve, the remote end is unreachable, and \<open>downloadAndExtractDocs\<close> ends with the
  error of the fetch.
\<close>

theorem stale_fallback_counterexample:
  "validateDocsDirectory (fs demo_world) ''docs''
   \<and> readHytaleClassDocs demo_env (fs demo_world) ''a.Foo'' ''docs/class_lookup.json'' ''docs'' None
       = (Inr ''Foo body'', Some demo_lookup)
   \<and> downloadAndExtractDocs demo_env demo_config demo_world
       = (Inl FetchFailed, demo_world\<lparr>net_calls := 1\<rparr>)"
proof -
  have v: "validateDocsDirectory (fs demo_world) ''docs''"
    by (simp add: validateDocsDirectory_def access_def demo_world_def demo_fs_def path_join_def)
  have r: "readHytaleClassDocs demo_env (fs demo_world) ''a.Foo'' ''docs/class_lookup.json'' ''docs'' None
       = (Inr ''Foo body'', Some demo_lookup)"
    by (simp add: demo_world_def demo_retrieve_foo)
  have d: "downloadAndExtractDocs demo_env demo_config demo_world
       = (Inl FetchFailed, demo_world\<lparr>net_calls := 1\<rparr>)"
    using demo_url_changed
    by (simp add: downloadAndExtractDocs_def demo_config_def demo_fetch_throws demo_world_def)
  show ?thesis using v r d by simp
qed

text \<open>
  C2, amended. When the fetch fails, \<open>downloadAndExtractDocs\<close> logs the failure and
  throws the error of the fetch again, whether or not a bundle is on disk. The store
  is as it was before the run, so Retrieve against it answers as before.
\<close>

theorem fetch_failure_is_rethrown:
  assumes "docsUrl config = Some url" and "url \<noteq> []"
    and "hasUrlChanged (fs w) (docsDir config) url"
    and "fst (downloadFile e url (docsDownloadTimeout config) w) = Inl err"
  shows "downloadAndExtractDocs e config w = (Inl err, w\<lparr>net_calls := net_calls w + 1\<rparr>)
         \<and> fs (snd (downloadAndExtractDocs e config w)) = fs w
         \<and> readHytaleClassDocs e (fs (snd (downloadAndExtractDocs e config w))) name lookup_file docs cache
             = readHytaleClassDocs e (fs w) name lookup_file docs cache"
proof -
  obtain r w1 where d: "downloadFile e url (docsDownloadTimeout config) w = (r, w1)"
    by (cases "downloadFile e url (docsDownloadTimeout config) w")
  then have w1: "w1 = w\<lparr>net_calls := net_calls w + 1\<rparr>"
    using downloadFile_world [of e url "docsDownloadTimeout config" w] by simp
  have r: "r = Inl err" using d assms(4) by simp
  have "downloadAndExtractDocs e config w = (Inl err, w\<lparr>net_calls := net_calls w + 1\<rparr>)"
    using d w1 r by (simp add: download_attempted [OF assms(1-3)])
  then show ?thesis by simp
qed

theorem fetch_failure_is_rethrown_witness:
  "docsUrl demo_config = Some ''https://host/docs-v2.zip''
   \<and> ''https://host/docs-v2.zip'' \<noteq> []
   \<and> hasUrlChanged (fs demo_world) (docsDir demo_config) ''https://host/docs-v2.zip''
   \<and> fst (downloadFile demo_env ''https://host/docs-v2.zip'' (docsDownloadTimeout demo_config)
            demo_world) = Inl FetchFailed
   \<and> downloadAndExtractDocs demo_env demo_config demo_world
       = (Inl FetchFailed, demo_world\<lparr>net_calls := net_calls demo_world + 1\<rparr>)
   \<and> readHytaleClassDocs demo_env (fs (snd (downloadAndExtractDocs demo_env demo_config demo_world)))
         ''a.Foo'' ''docs/class_lookup.json'' ''docs'' None
       = (Inr ''Foo body'', Some demo_lookup)"
proof -
  have u: "docsUrl demo_config = Some ''https://host/docs-v2.zip''"
    by (simp add: demo_config_def)
  have n: "''https://host/docs-v2.zip'' \<noteq> []" by simp
  have c: "hasUrlChanged (fs demo_world) (docsDir demo_config) ''https://host/docs-v2.zip''"
    using demo_url_changed by (simp add: demo_world_def demo_config_def)
  have d: "fst (downloadFile demo_env ''https://host/docs-v2.zip'' (docsDownloadTimeout demo_config)
            demo_world) = Inl FetchFailed"
    by (simp add: demo_fetch_throws)
  have r: "readHytaleClassDocs demo_env (fs demo_world) ''a.Foo'' ''docs/class_lookup.json'' ''docs'' None
       = (Inr ''Foo body'', Some demo_lookup)"
    by (simp add: demo_world_def demo_retrieve_foo)
  show ?thesis
    using fetch_failure_is_rethrown [OF u n c d, of "''a.Foo''" "''docs/class_lookup.json''" "''docs''" None]
      u c d r
    by simp
qed

section \<open>Provisioning: a failed extraction\<close>

lemma remote_download:
  "downloadFile (refusing_env x) url t w = (Inr ''ZIP'', w\<lparr>net_calls := net_calls w + 1\<rparr>)"
  by (simp add: downloadFile_def refusing_env_def remote_env_def response_ok_def)

lemma remote_zip_entries:
  "zip_entries (refusing_env x) ''ZIP'' =
     Some [(''f1'', ''Foo body v2''), (''f2'', ''Bar body v2''), (''class_lookup.json'', ''INDEX'')]"
  by (simp add: refusing_env_def remote_env_def demo_archive_def)

lemma remote_write_fails: "write_fails (refusing_env x) p = (p = x)"
  by (simp add: refusing_env_def remote_env_def)

lemma remote_entry_place: "entry_place (refusing_env x) d n = path_join d n"
  by (simp add: refusing_env_def remote_env_def)

lemma demo_mkdir: "mkdir e demo_fs ''docs'' = Inr demo_fs"
  by (simp add: mkdir_def demo_fs_def)

lemma demo_extract_refused_f2:
  "extractAllTo (refusing_env ''docs/f2'') ''docs''
     [(''f1'', ''Foo body v2''), (''f2'', ''Bar body v2''), (''class_lookup.json'', ''INDEX'')] demo_fs
   = (Inl (FsError EACCES ''docs/f2''), demo_fs(''docs/f1'' \<mapsto> File ''Foo body v2''))"
  by (simp add: Let_def remote_entry_place path_join_def remote_write_fails demo_fs_def)

lemma demo_extractZip_refused_f2:
  "extractZip (refusing_env ''docs/f2'') ''ZIP'' ''docs'' demo_fs
      = (Inl (ExtractZipFailed (FsError EACCES ''docs/f2'')),
         demo_fs(''docs/f1'' \<mapsto> File ''Foo body v2''))"
  by (simp add: extractZip_def demo_mkdir remote_zip_entries demo_extract_refused_f2
      del: extractAllTo.simps)

text \<open>
  C1, as claimed: when extraction fails partway, either all of the new content is
  in the store or none of it, and the previous store is intact. It does not hold:
  with the write of the second entry refused the run fails, the first entry has
  replaced the previous file of that name, and the second file is still the old one.
\<close>

theorem partial_extraction_counterexample:
  "fst (downloadAndExtractDocs (refusing_env ''docs/f2'') demo_config demo_world)
     = Inl (ExtractZipFailed (FsError EACCES ''docs/f2''))
   \<and> fs demo_world ''docs/f1'' = Some (File ''Foo body'')
   \<and> fs (snd (downloadAndExtractDocs (refusing_env ''docs/f2'') demo_config demo_world)) ''docs/f1''
       = Some (File ''Foo body v2'')
   \<and> fs (snd (downloadAndExtractDocs (refusing_env ''docs/f2'') demo_config demo_world)) ''docs/f2''
       = Some (File ''Bar body'')"
proof -
  have d: "downloadAndExtractDocs (refusing_env ''docs/f2'') demo_config demo_world
      = (Inl (ExtractZipFailed (FsError EACCES ''docs/f2'')),
         \<lparr>fs = demo_fs(''docs/f1'' \<mapsto> File ''Foo body v2''), net_calls = 1\<rparr>)"
    using demo_url_changed
    by (simp add: downloadAndExtractDocs_def demo_config_def demo_world_def remote_download
        demo_extractZip_refused_f2)
  show ?thesis
    by (simp add: d) (simp add: demo_world_def demo_fs_def)
qed

text \<open>
  C1, amended. Extraction is not atomic. When the extraction of the downloaded
  archive fails partway, provisioning fails with the extraction error and nothing is
  rolled back: the store is left exactly as the failed extraction left it, with
  whatever it had written, and \<open>downloadAndExtractDocs\<close> writes nothing after it (it
  does not store the new identifier). When the extraction itself left the identifier
  file as it was, the identifier file is what it was before the run and the next run
  downloads again.
\<close>

theorem failed_extraction_is_not_rolled_back:
  assumes "docsUrl config = Some url" and "url \<noteq> []"
    and "hasUrlChanged (fs w) (docsDir config) url"
    and "http_get e url (docsDownloadTimeout config) = FetchResponse status body"
    and "response_ok status"
    and "mkdir e (fs w) (docsDir config) = Inr f1"
    and "zip_entries e body = Some es"
    and "extractAllTo e (docsDir config) es f1 = (Inl err, f2)"
  shows "downloadAndExtractDocs e config w
           = (Inl (ExtractZipFailed err), w\<lparr>net_calls := net_calls w + 1, fs := f2\<rparr>)
         \<and> (f2 (path_join (docsDir config) LAST_URL_FILE) = f1 (path_join (docsDir config) LAST_URL_FILE)
            \<longrightarrow> f2 (path_join (docsDir config) LAST_URL_FILE)
                  = fs w (path_join (docsDir config) LAST_URL_FILE)
                \<and> net_calls (snd (downloadAndExtractDocs e config
                      (w\<lparr>net_calls := net_calls w + 1, fs := f2\<rparr>))) = net_calls w + 2)"
proof -
  let ?m = "path_join (docsDir config) LAST_URL_FILE"
  let ?w' = "w\<lparr>net_calls := net_calls w + 1, fs := f2\<rparr>"
  have d: "downloadFile e url (docsDownloadTimeout config) w
             = (Inr body, w\<lparr>net_calls := net_calls w + 1\<rparr>)"
    using assms(4,5) by (simp add: downloadFile_def)
  have x: "extractZip e body (docsDir config) (fs w) = (Inl (ExtractZipFailed err), f2)"
    using assms(6-8) by (simp add: extractZip_def)
  have run: "downloadAndExtractDocs e config w = (Inl (ExtractZipFailed err), ?w')"
    by (simp add: download_attempted [OF assms(1-3)] d x)
  have retry: "f2 ?m = f1 ?m \<longrightarrow> f2 ?m = fs w ?m
      \<and> net_calls (snd (downloadAndExtractDocs e config ?w')) = net_calls w + 2"
  proof
    assume same: "f2 ?m = f1 ?m"
    have "f1 ?m = fs w ?m" using assms(6) by (rule mkdir_frame) simp
    with same have kept: "f2 ?m = fs w ?m" by simp
    then have "hasUrlChanged (fs ?w') (docsDir config) url"
      using assms(3) by (simp add: hasUrlChanged_def readFile_def)
    then have "net_calls (snd (downloadAndExtractDocs e config ?w')) = net_calls ?w' + 1"
      by (rule download_attempted_net_calls [OF assms(1,2)])
    then show "f2 ?m = fs w ?m
      \<and> net_calls (snd (downloadAndExtractDocs e config ?w')) = net_calls w + 2"
      using kept by simp
  qed
  show ?thesis using run retry by (intro conjI)
qed

theorem failed_extraction_is_not_rolled_back_witness:
  "docsUrl demo_config = Some ''https://host/docs-v2.zip''
   \<and> hasUrlChanged (fs demo_world) (docsDir demo_config) ''https://host/docs-v2.zip''
   \<and> http_get (refusing_env ''docs/f2'') ''https://host/docs-v2.zip'' (docsDownloadTimeout demo_config)
        = FetchResponse 200 ''ZIP''
   \<and> response_ok 200
   \<and> mkdir (refusing_env ''docs/f2'') (fs demo_world) (docsDir demo_config) = Inr demo_fs
   \<and> zip_entries (refusing_env ''docs/f2'') ''ZIP''
        = Some [(''f1'', ''Foo body v2''), (''f2'', ''Bar body v2''), (''class_lookup.json'', ''INDEX'')]
   \<and> extractAllTo (refusing_env ''docs/f2'') (docsDir demo_config)
        [(''f1'', ''Foo body v2''), (''f2'', ''Bar body v2''), (''class_lookup.json'', ''INDEX'')] demo_fs
        = (Inl (FsError EACCES ''docs/f2''), demo_fs(''docs/f1'' \<mapsto> File ''Foo body v2''))
   \<and> downloadAndExtractDocs (refusing_env ''docs/f2'') demo_config demo_world
        = (Inl (ExtractZipFailed (FsError EACCES ''docs/f2'')),
           demo_world\<lparr>net_calls := net_calls demo_world + 1,
                       fs := demo_fs(''docs/f1'' \<mapsto> File ''Foo body v2'')\<rparr>)
   \<and> (demo_fs(''docs/f1'' \<mapsto> File ''Foo body v2'')) (path_join (docsDir demo_config) LAST_URL_FILE)
        = demo_fs (path_join (docsDir demo_config) LAST_URL_FILE)
   \<and> net_calls (snd (downloadAndExtractDocs (refusing_env ''docs/f2'') demo_config
        (demo_world\<lparr>net_calls := net_calls demo_world + 1,
                    fs := demo_fs(''docs/f1'' \<mapsto> File ''Foo body v2'')\<rparr>)))
        = net_calls demo_world + 2"
proof -
  have u: "docsUrl demo_config = Some ''https://host/docs-v2.zip''"
    by (simp add: demo_config_def)
  have n: "''https://host/docs-v2.zip'' \<noteq> []" by simp
  have c: "hasUrlChanged (fs demo_world) (docsDir demo_config) ''https://host/docs-v2.zip''"
    using demo_url_changed by (simp add: demo_world_def demo_config_def)
  have g: "http_get (refusing_env ''docs/f2'') ''https://host/docs-v2.zip''
             (docsDownloadTimeout demo_config) = FetchResponse 200 ''ZIP''"
    by (simp add: refusing_env_def remote_env_def)
  have k: "response_ok 200" by (simp add: response_ok_def)
  have m: "mkdir (refusing_env ''docs/f2'') (fs demo_world) (docsDir demo_config) = Inr demo_fs"
    by (simp add: demo_world_def demo_config_def demo_mkdir)
  note z = remote_zip_entries [of "''docs/f2''"]
  have x: "extractAllTo (refusing_env ''docs/f2'') (docsDir demo_config)
        [(''f1'', ''Foo body v2''), (''f2'', ''Bar body v2''), (''class_lookup.json'', ''INDEX'')] demo_fs
        = (Inl (FsError EACCES ''docs/f2''), demo_fs(''docs/f1'' \<mapsto> File ''Foo body v2''))"
    using demo_extract_refused_f2 by (simp add: demo_config_def)
  have s: "(demo_fs(''docs/f1'' \<mapsto> File ''Foo body v2'')) (path_join (docsDir demo_config) LAST_URL_FILE)
        = demo_fs (path_join (docsDir demo_config) LAST_URL_FILE)"
    by (simp add: path_join_def demo_config_def LAST_URL_FILE_def)
  note t = failed_extraction_is_not_rolled_back [OF u n c g k m z x]
  note r = t [THEN conjunct1]
  note a = t [THEN conjunct2, THEN mp, OF s, THEN conjunct2]
  show ?thesis
    using u c g k m z x r s a by (intro conjI)
qed

section \<open>Provisioning: runs on the sample stores\<close>

lemma remote_extract:
  assumes "zip_entries e ''ZIP'' = Some demo_archive"
    and "entry_place e = path_join"
    and "\<not> write_fails e ''docs/f1''" and "\<not> write_fails e ''docs/f2''"
    and "\<not> write_fails e ''docs/class_lookup.json''"
    and "f ''docs'' = Some Dir"
    and "f ''docs/f1'' \<noteq> Some Dir" and "f ''docs/f2'' \<noteq> Some Dir"
    and "f ''docs/class_lookup.json'' \<noteq> Some Dir"
  shows "extractZip e ''ZIP'' ''docs'' f = (Inr (), extracted f)"
  using assms
  by (simp add: extractZip_def mkdir_def demo_archive_def Let_def path_join_def extracted_def)


lemma demo_fs_simps:
  "demo_fs ''docs'' = Some Dir" "demo_fs ''docs/f1'' = Some (File ''Foo body'')"
  "demo_fs ''docs/f2'' = Some (File ''Bar body'')"
  "demo_fs ''docs/class_lookup.json'' = Some (File ''INDEX'')"
  "demo_fs ''docs/.last-download-url'' = None"
  by (simp_all add: demo_fs_def)

lemma empty_docs_fs_simps:
  "empty_docs_fs ''docs'' = Some Dir" "empty_docs_fs ''docs/f1'' = None"
  "empty_docs_fs ''docs/f2'' = None" "empty_docs_fs ''docs/class_lookup.json'' = None"
  "empty_docs_fs ''docs/.last-download-url'' = None" "empty_docs_fs ''docs/c.md'' = None"
  by (simp_all add: empty_docs_fs_def)

lemma extracted_simps:
  "extracted f ''docs'' = f ''docs''"
  "extracted f ''docs/f1'' = Some (File ''Foo body v2'')"
  "extracted f ''docs/f2'' = Some (File ''Bar body v2'')"
  "extracted f ''docs/class_lookup.json'' = Some (File ''INDEX'')"
  "extracted f ''docs/.last-download-url'' = f ''docs/.last-download-url''"
  "extracted f ''docs/c.md'' = f ''docs/c.md''"
  by (simp_all add: extracted_def)


lemma remote_env_simps:
  "http_get remote_env url t = FetchResponse 200 ''ZIP''"
  "zip_entries remote_env ''ZIP'' = Some demo_archive"
  "write_fails remote_env p = False"
  "entry_place remote_env = path_join"
  "json_parse remote_env ''INDEX'' = Some demo_lookup"
  by (simp_all add: remote_env_def)



lemma remote_run:
  assumes "hasUrlChanged f ''docs'' ''https://host/docs-v2.zip''"
    and "f ''docs'' = Some Dir"
    and "f ''docs/f1'' \<noteq> Some Dir" and "f ''docs/f2'' \<noteq> Some Dir"
    and "f ''docs/class_lookup.json'' \<noteq> Some Dir"
    and "f ''docs/.last-download-url'' \<noteq> Some Dir"
  shows "downloadAndExtractDocs remote_env demo_config \<lparr>fs = f, net_calls = k\<rparr>
   = (Inr (), \<lparr>fs = (extracted f)(''docs/.last-download-url'' \<mapsto> File ''https://host/docs-v2.zip''),
               net_calls = k + 1\<rparr>)"
proof -
  have x: "extractZip remote_env ''ZIP'' ''docs'' f = (Inr (), extracted f)"
    by (rule remote_extract) (simp_all add: remote_env_simps assms)
  have v: "validateDocsDirectory (extracted f) ''docs''"
    by (simp add: validateDocsDirectory_def access_def path_join_def extracted_simps assms)
  have s: "saveLastUrl remote_env (extracted f) ''docs'' ''https://host/docs-v2.zip''
             = (extracted f)(''docs/.last-download-url'' \<mapsto> File ''https://host/docs-v2.zip'')"
    by (simp add: saveLastUrl_def writeFile_def path_join_def LAST_URL_FILE_def remote_env_simps
        extracted_simps assms)
  show ?thesis
    using assms(1)
    by (simp add: downloadAndExtractDocs_def demo_config_def downloadFile_def remote_env_simps
        response_ok_def x v s)
qed


lemma empty_docs_run:
  "downloadAndExtractDocs remote_env demo_config \<lparr>fs = empty_docs_fs, net_calls = 0\<rparr>
   = (Inr (), \<lparr>fs = (extracted empty_docs_fs)(''docs/.last-download-url'' \<mapsto> File ''https://host/docs-v2.zip''),
               net_calls = 1\<rparr>)"
proof -
  have c: "hasUrlChanged empty_docs_fs ''docs'' ''https://host/docs-v2.zip''"
    by (simp add: hasUrlChanged_def readFile_def path_join_def LAST_URL_FILE_def empty_docs_fs_def)
  have "downloadAndExtractDocs remote_env demo_config \<lparr>fs = empty_docs_fs, net_calls = 0\<rparr>
   = (Inr (), \<lparr>fs = (extracted empty_docs_fs)(''docs/.last-download-url'' \<mapsto> File ''https://host/docs-v2.zip''),
               net_calls = 0 + 1\<rparr>)"
    by (rule remote_run) (simp_all add: c empty_docs_fs_simps)
  then show ?thesis by simp
qed

section \<open>Provisioning: the stored identifier\<close>




section \<open>Provisioning: validation\<close>

text \<open>
  C9, as claimed: after a successful run every entry of the index has its file in
  the store. It does not hold: the archive below carries the index and two files, the
  run into an empty store directory succeeds, and the index entry \<open>Constructor\<close>
  names the file \<open>c.md\<close>, which is not there.
\<close>

theorem validation_ignores_entry_files_counterexample:
  "fst (downloadAndExtractDocs remote_env demo_config \<lparr>fs = empty_docs_fs, net_calls = 0\<rparr>) = Inr ()
   \<and> loadLookup remote_env
        (fs (snd (downloadAndExtractDocs remote_env demo_config \<lparr>fs = empty_docs_fs, net_calls = 0\<rparr>)))
        ''docs/class_lookup.json'' None = (Some demo_lookup, Some demo_lookup)
   \<and> map_of demo_lookup ''Constructor'' = Some (snd (demo_lookup ! 3))
   \<and> path (snd (demo_lookup ! 3)) = ''c.md''
   \<and> fs (snd (downloadAndExtractDocs remote_env demo_config \<lparr>fs = empty_docs_fs, net_calls = 0\<rparr>))
        (path_join ''docs'' ''c.md'') = None"
proof -
  have l: "loadLookup remote_env
        ((extracted empty_docs_fs)(''docs/.last-download-url'' \<mapsto> File ''https://host/docs-v2.zip''))
        ''docs/class_lookup.json'' None = (Some demo_lookup, Some demo_lookup)"
    by (simp add: loadLookup_def readFile_def extracted_simps remote_env_simps)
  have k: "map_of demo_lookup ''Constructor'' = Some (snd (demo_lookup ! 3))"
    by (simp add: demo_lookup_def)
  have p: "path (snd (demo_lookup ! 3)) = ''c.md''"
    by (simp add: demo_lookup_def)
  have n: "((extracted empty_docs_fs)(''docs/.last-download-url'' \<mapsto> File ''https://host/docs-v2.zip''))
             (path_join ''docs'' ''c.md'') = None"
    by (simp add: path_join_def extracted_simps empty_docs_fs_simps)
  show ?thesis
    using l k p n by (simp add: empty_docs_run)
qed

text \<open>
  C9, amended. Validation establishes that the store directory and the index file
  \<open>class_lookup.json\<close> in it exist: both do at the end of every run that downloaded
  and succeeded. The files the entries name are not looked at.
\<close>

theorem validation_checks_directory_and_index:
  assumes "docsUrl config = Some url" and "url \<noteq> []"
    and "hasUrlChanged (fs w) (docsDir config) url"
    and "downloadAndExtractDocs e config w = (Inr (), w')"
  shows "access (fs w') (docsDir config)
         \<and> access (fs w') (path_join (docsDir config) ''class_lookup.json'')"
proof -
  obtain dr w1 where d: "downloadFile e url (docsDownloadTimeout config) w = (dr, w1)"
    by (cases "downloadFile e url (docsDownloadTimeout config) w")
  obtain body where b: "dr = Inr body"
    using assms(4) d by (cases dr) (simp_all add: download_attempted [OF assms(1-3)])
  obtain xr f2 where x: "extractZip e body (docsDir config) (fs w1) = (xr, f2)"
    by (cases "extractZip e body (docsDir config) (fs w1)")
  have "validateDocsDirectory f2 (docsDir config) \<and> fs w' = saveLastUrl e f2 (docsDir config) url"
    using assms(4) d b x
    by (auto simp: download_attempted [OF assms(1-3)] split: sum.splits if_splits)
  then show ?thesis
    by (simp add: validateDocsDirectory_def saveLastUrl_access)
qed

theorem validation_checks_directory_and_index_witness:
  "docsUrl demo_config = Some ''https://host/docs-v2.zip''
   \<and> hasUrlChanged (fs \<lparr>fs = empty_docs_fs, net_calls = 0\<rparr>) (docsDir demo_config)
         ''https://host/docs-v2.zip''
   \<and> downloadAndExtractDocs remote_env demo_config \<lparr>fs = empty_docs_fs, net_calls = 0\<rparr>
       = (Inr (), \<lparr>fs = (extracted empty_docs_fs)
                          (''docs/.last-download-url'' \<mapsto> File ''https://host/docs-v2.zip''),
                   net_calls = 1\<rparr>)
   \<and> access ((extracted empty_docs_fs)(''docs/.last-download-url'' \<mapsto> File ''https://host/docs-v2.zip''))
         (docsDir demo_config)
   \<and> access ((extracted empty_docs_fs)(''docs/.last-download-url'' \<mapsto> File ''https://host/docs-v2.zip''))
         (path_join (docsDir demo_config) ''class_lookup.json'')"
proof -
  let ?f' = "(extracted empty_docs_fs)(''docs/.last-download-url'' \<mapsto> File ''https://host/docs-v2.zip'')"
  have u: "docsUrl demo_config = Some ''https://host/docs-v2.zip''"
    by (simp add: demo_config_def)
  have n: "''https://host/docs-v2.zip'' \<noteq> []" by simp
  have c: "hasUrlChanged (fs \<lparr>fs = empty_docs_fs, net_calls = 0\<rparr>) (docsDir demo_config)
             ''https://host/docs-v2.zip''"
    by (simp add: hasUrlChanged_def readFile_def path_join_def LAST_URL_FILE_def demo_config_def
        empty_docs_fs_simps)
  have a: "access (fs \<lparr>fs = ?f', net_calls = 1\<rparr>) (docsDir demo_config)
         \<and> access (fs \<lparr>fs = ?f', net_calls = 1\<rparr>) (path_join (docsDir demo_config) ''class_lookup.json'')"
    by (rule validation_checks_directory_and_index [OF u n c empty_docs_run])
  then have a1: "access ?f' (docsDir demo_config)"
    and a2: "access ?f' (path_join (docsDir demo_config) ''class_lookup.json'')"
    by simp_all
  show ?thesis using u c empty_docs_run a1 a2 by (intro conjI)
qed

section \<open>Provisioning: the unchanged identifier\<close>

text \<open>
  C8. When the stored identifier, trimmed, equals the configured identifier, trimmed,
  the run ends at once with success: no request is sent and the world, store
  included, is what it was. When there is no stored identifier file the identifier
  counts as changed, and a run with a configured identifier sends a request.
\<close>

theorem unchanged_identifier_skips_download:
  "(docsUrl config = Some url
      \<and> readFile (fs w) (path_join (docsDir config) LAST_URL_FILE) = Inr stored
      \<and> trim stored = trim url
    \<longrightarrow> downloadAndExtractDocs e config w = (Inr (), w))
   \<and> (docsUrl config = Some url \<and> url \<noteq> []
      \<and> fs w (path_join (docsDir config) LAST_URL_FILE) = None
    \<longrightarrow> hasUrlChanged (fs w) (docsDir config) url
        \<and> net_calls (snd (downloadAndExtractDocs e config w)) = net_calls w + 1)"
proof (intro conjI impI)
  assume "docsUrl config = Some url
      \<and> readFile (fs w) (path_join (docsDir config) LAST_URL_FILE) = Inr stored
      \<and> trim stored = trim url"
  then show "downloadAndExtractDocs e config w = (Inr (), w)"
    by (simp add: downloadAndExtractDocs_def hasUrlChanged_def)
next
  assume a: "docsUrl config = Some url \<and> url \<noteq> []
      \<and> fs w (path_join (docsDir config) LAST_URL_FILE) = None"
  then show c: "hasUrlChanged (fs w) (docsDir config) url"
    by (simp add: hasUrlChanged_def readFile_def)
  from a c show "net_calls (snd (downloadAndExtractDocs e config w)) = net_calls w + 1"
    by (simp add: download_attempted_net_calls)
qed

theorem unchanged_identifier_skips_download_witness:
  "docsUrl demo_config = Some ''https://host/docs-v2.zip''
   \<and> readFile (demo_fs(''docs/.last-download-url'' \<mapsto> File (''https://host/docs-v2.zip'' @ [CHR 0x0A])))
        (path_join (docsDir demo_config) LAST_URL_FILE) = Inr (''https://host/docs-v2.zip'' @ [CHR 0x0A])
   \<and> trim (''https://host/docs-v2.zip'' @ [CHR 0x0A]) = trim ''https://host/docs-v2.zip''
   \<and> downloadAndExtractDocs remote_env demo_config
         \<lparr>fs = demo_fs(''docs/.last-download-url'' \<mapsto> File (''https://host/docs-v2.zip'' @ [CHR 0x0A])),
          net_calls = 0\<rparr>
       = (Inr (),
          \<lparr>fs = demo_fs(''docs/.last-download-url'' \<mapsto> File (''https://host/docs-v2.zip'' @ [CHR 0x0A])),
           net_calls = 0\<rparr>)
   \<and> fs demo_world (path_join (docsDir demo_config) LAST_URL_FILE) = None
   \<and> hasUrlChanged (fs demo_world) (docsDir demo_config) ''https://host/docs-v2.zip''
   \<and> net_calls (snd (downloadAndExtractDocs remote_env demo_config demo_world))
       = net_calls demo_world + 1"
proof -
  let ?f = "demo_fs(''docs/.last-download-url'' \<mapsto> File (''https://host/docs-v2.zip'' @ [CHR 0x0A]))"
  let ?w = "\<lparr>fs = ?f, net_calls = 0\<rparr>"
  have m: "path_join (docsDir demo_config) LAST_URL_FILE = ''docs/.last-download-url''"
    by (simp add: path_join_def demo_config_def LAST_URL_FILE_def)
  have u: "docsUrl demo_config = Some ''https://host/docs-v2.zip''"
    by (simp add: demo_config_def)
  have r: "readFile (fs ?w) (path_join (docsDir demo_config) LAST_URL_FILE)
             = Inr (''https://host/docs-v2.zip'' @ [CHR 0x0A])"
    unfolding m by (simp add: readFile_def)
  have t: "trim (''https://host/docs-v2.zip'' @ [CHR 0x0A]) = trim ''https://host/docs-v2.zip''"
    by code_simp
  have b: "fs demo_world (path_join (docsDir demo_config) LAST_URL_FILE) = None"
    unfolding m by (simp add: demo_world_def demo_fs_simps)
  note thm1 = unchanged_identifier_skips_download
    [of demo_config "''https://host/docs-v2.zip''" ?w "''https://host/docs-v2.zip'' @ [CHR 0x0A]" remote_env]
  note thm2 = unchanged_identifier_skips_download
    [of demo_config "''https://host/docs-v2.zip''" demo_world "[]" remote_env]
  have same: "downloadAndExtractDocs remote_env demo_config ?w = (Inr (), ?w)"
    by (rule thm1 [THEN conjunct1, THEN mp]) (intro conjI u r t)
  have n: "''https://host/docs-v2.zip'' \<noteq> []" by simp
  have again: "hasUrlChanged (fs demo_world) (docsDir demo_config) ''https://host/docs-v2.zip''
     \<and> net_calls (snd (downloadAndExtractDocs remote_env demo_config demo_world))
       = net_calls demo_world + 1"
    by (rule thm2 [THEN conjunct2, THEN mp]) (intro conjI u n b)
  note again1 = again [THEN conjunct1] and again2 = again [THEN conjunct2]
  have r': "readFile ?f (path_join (docsDir demo_config) LAST_URL_FILE)
             = Inr (''https://host/docs-v2.zip'' @ [CHR 0x0A])"
    using r by simp
  show ?thesis
    using u r' t same b again1 again2 by (intro conjI)
qed

section \<open>Provisioning: a refused write of the identifier\<close>



end
